theory Spec2Isabelle
  imports Complex_Main "HOL-Library.AList" "HOL-Library.Multiset"
begin

section \<open>Subtensor: the chain client (subtensor\_impl.py)\<close>

subsection \<open>The retry wrapper around chain queries\<close>











subsection \<open>Submitting a weight commit\<close>

record call_params =
  dests :: "nat list"
  weights :: "nat list"
  netuid :: nat
  version_key :: nat

text \<open>The response of \<^verbatim>\<open>submit_extrinsic\<close>, after \<^verbatim>\<open>process_events\<close>.\<close>

record receipt =
  is_success :: bool
  error_message :: "string option"

text \<open>
  The substrate client as seen by \<^verbatim>\<open>_do_set_weights\<close>. \<open>'c\<close> is a composed call,
  \<open>'x\<close> a signed extrinsic, \<open>'k\<close> the wallet's hotkey. What the ledger answers to a
  submission may depend on the submissions made before, which are the first argument
  of \<open>submit_extrinsic\<close>.
\<close>

record ('e, 'c, 'x, 'k) substrate =
  compose_call :: "string \<Rightarrow> string \<Rightarrow> call_params \<Rightarrow> 'e + 'c"
  create_signed_extrinsic :: "'c \<Rightarrow> 'k \<Rightarrow> nat \<Rightarrow> 'e + 'x"
  submit_extrinsic :: "'x list \<Rightarrow> 'x \<Rightarrow> bool \<Rightarrow> bool \<Rightarrow> 'e + receipt"

text \<open>
  \<^verbatim>\<open>Subtensor._do_set_weights\<close>. The state is the list of extrinsics given to
  \<^verbatim>\<open>submit_extrinsic\<close> so far; the result is \<open>Inl\<close> an exception that escapes, or
  \<open>Inr (success, error_message)\<close>.
\<close>

definition do_set_weights ::
  "('e, 'c, 'x, 'k) substrate \<Rightarrow> 'k \<Rightarrow> nat list \<Rightarrow> nat list \<Rightarrow> nat \<Rightarrow> nat \<Rightarrow> bool \<Rightarrow> bool
    \<Rightarrow> 'x list \<Rightarrow> ('e + bool \<times> string option) \<times> 'x list" where
  "do_set_weights sub hotkey uids vals nuid vkey wait_for_inclusion wait_for_finalization sent =
     (case compose_call sub ''SubtensorModule'' ''set_weights''
             \<lparr>dests = uids, weights = vals, netuid = nuid, version_key = vkey\<rparr> of
        Inl e \<Rightarrow> (Inl e, sent)
      | Inr call \<Rightarrow>
          (case create_signed_extrinsic sub call hotkey 100 of
             Inl e \<Rightarrow> (Inl e, sent)
           | Inr extrinsic \<Rightarrow>
               (case submit_extrinsic sub sent extrinsic wait_for_inclusion wait_for_finalization of
                  Inl e \<Rightarrow> (Inl e, sent @ [extrinsic])
                | Inr response \<Rightarrow>
                    if \<not> wait_for_finalization \<and> \<not> wait_for_inclusion
                    then (Inr (True, None), sent @ [extrinsic])
                    else if is_success response
                    then (Inr (True, None), sent @ [extrinsic])
                    else (Inr (False, error_message response), sent @ [extrinsic]))))"

text \<open>A ledger that rejects every submission with the same message.\<close>

definition rejecting_substrate :: "string \<Rightarrow> (unit, call_params, call_params, unit) substrate" where
  "rejecting_substrate msg =
     \<lparr>compose_call = (\<lambda>m f p. Inr p),
      create_signed_extrinsic = (\<lambda>c k era. Inr c),
      submit_extrinsic = (\<lambda>sent x wi wf. Inr \<lparr>is_success = False, error_message = Some msg\<rparr>)\<rparr>"



section \<open>The validator (core\_validator/validator\_impl.py)\<close>

text \<open>
  Float tensors are lists of reals: the model follows the arithmetic of the source, not
  its rounding. Where a tensor operation of the source produces \<open>nan\<close> or \<open>inf\<close>
  (a division by a zero sum) the model stops with \<open>NonFinite\<close>; this one is not a
  Python exception, it marks that the run has left what real numbers describe.
\<close>

datatype error =
    KeyError nat
  | RuntimeError
  | IndexError
  | UnboundLocalError
  | ZeroDivisionError
  | ChainError
  | NonFinite

subsection \<open>Tensor operations the source uses\<close>

text \<open>
  \<^verbatim>\<open>torch.topk(values, k)\<close>: the \<open>k\<close> largest entries, largest first, and their
  indices; it raises when \<open>k\<close> exceeds the size. Torch does not fix the order among
  equal entries; here the lower index comes first.
\<close>

definition torch_topk :: "real list \<Rightarrow> nat \<Rightarrow> error + real list \<times> nat list" where
  "torch_topk vals k =
     (if length vals < k then Inl RuntimeError
      else let indices = take k (sort_key (\<lambda>i. - (vals ! i)) [0..<length vals])
           in Inr (map (\<lambda>i. vals ! i) indices, indices))"

text \<open>\<^verbatim>\<open>t[i] = v\<close> on a one-dimensional tensor.\<close>

definition set_item :: "real list \<Rightarrow> nat \<Rightarrow> real \<Rightarrow> error + real list" where
  "set_item t i v = (if i < length t then Inr (t[i := v]) else Inl IndexError)"

text \<open>\<^verbatim>\<open>t[indices]\<close> with an index tensor.\<close>

definition index_select :: "nat list \<Rightarrow> nat list \<Rightarrow> error + nat list" where
  "index_select t indices =
     (if list_all (\<lambda>i. i < length t) indices then Inr (map (\<lambda>i. t ! i) indices)
      else Inl IndexError)"

text \<open>\<^verbatim>\<open>scores / scores.sum()\<close>.\<close>

definition normalize_scores :: "real list \<Rightarrow> error + real list" where
  "normalize_scores scores =
     (if sum_list scores = 0 then Inl NonFinite
      else Inr (map (\<lambda>x. x / sum_list scores) scores))"

text \<open>
  \<^verbatim>\<open>torch.stack(score_history).mean(0)\<close>: the tensors are stacked as the rows of a
  matrix (which raises on no tensor, and on tensors of different sizes), and each
  column is averaged.
\<close>

definition stack_mean :: "real list list \<Rightarrow> error + real list" where
  "stack_mean rows =
     (case rows of
        [] \<Rightarrow> Inl RuntimeError
      | r # rs \<Rightarrow>
          if list_all (\<lambda>x. length x = length r) rs
          then Inr (map (\<lambda>col. sum_list col / real (length col)) (transpose rows))
          else Inl RuntimeError)"

subsection \<open>The nucleus\<close>

text \<open>
  \<open>'g\<close> is a gate (a linear layer) as constructed or last reset; what training has made
  of its weights by a given step is read through that step's oracles.
\<close>

record 'g nucleus =
  gates :: "nat \<rightharpoonup> 'g"
  nucleus_topk :: nat

text \<open>
  \<^verbatim>\<open>Nucleus.__init__\<close>: \<^verbatim>\<open>self.gates = {}\<close>, then one gate for each uid in
  \<^verbatim>\<open>range(2000)\<close>. \<open>new_gate uid\<close> is the freshly constructed layer.
\<close>

definition Nucleus_init :: "nat \<Rightarrow> (nat \<Rightarrow> 'g) \<Rightarrow> 'g nucleus" where
  "Nucleus_init cfg_topk new_gate =
     \<lparr>gates = fold (\<lambda>uid g. g(uid \<mapsto> new_gate uid)) [0..<2000] Map.empty,
      nucleus_topk = cfg_topk\<rparr>"

text \<open>
  \<^verbatim>\<open>Nucleus.reset_weights\<close>, the part on the gates:
  \<^verbatim>\<open>for uid in range(2000): torch.nn.init.xavier_uniform_( self.gates[uid].weight )\<close>.
\<close>

fun reset_gates :: "('g \<Rightarrow> 'g) \<Rightarrow> nat list \<Rightarrow> (nat \<rightharpoonup> 'g) \<Rightarrow> error + (nat \<rightharpoonup> 'g)" where
  "reset_gates xavier [] g = Inr g"
| "reset_gates xavier (uid # rest) g =
     (case g uid of
        None \<Rightarrow> Inl (KeyError uid)
      | Some w \<Rightarrow> reset_gates xavier rest (g(uid \<mapsto> xavier w)))"

definition reset_weights :: "('g \<Rightarrow> 'g) \<Rightarrow> 'g nucleus \<Rightarrow> error + 'g nucleus" where
  "reset_weights xavier nuc =
     (case reset_gates xavier [0..<2000] (gates nuc) of
        Inl e \<Rightarrow> Inl e
      | Inr g \<Rightarrow> Inr (nuc\<lparr>gates := g\<rparr>))"

record metagraph =
  mg_n :: nat
  mg_uids :: "nat list"

datatype return_code = Success | Timeout | Unavailable | ProtocolError

text \<open>
  What one forward pass takes from outside: the learned model, the random noise and
  the network. \<open>'t\<close> is a hidden-state tensor.
  \<^item> \<open>gate_mean g\<close>: the mean over the batch of gate \<open>g\<close> applied to the routing context;
  \<^item> \<open>noise i\<close>: entry \<open>i\<close> of the \<^verbatim>\<open>torch.normal\<close> sample;
  \<^item> \<open>forward_text uids\<close>: the return code and response of each queried endpoint, in order;
  \<^item> \<open>combine\<close>: how responses are joined into one hidden state;
  \<^item> \<open>train_loss\<close>, \<open>eval_loss\<close>: \<^verbatim>\<open>get_target_loss\<close> before and after
    \<^verbatim>\<open>self.eval()\<close>.
\<close>

record ('g, 't) step_env =
  gate_mean :: "'g \<Rightarrow> real"
  noise :: "nat \<Rightarrow> real"
  forward_text :: "nat list \<Rightarrow> (return_code \<times> 't) list"
  combine :: "'t list \<Rightarrow> 't"
  train_loss :: "'t \<Rightarrow> real"
  eval_loss :: "'t \<Rightarrow> real"

text \<open>
  \<^verbatim>\<open>[ self.gates[ uid ](routing_context[:,-1,:]) for uid in metagraph.uids.tolist() ]\<close>:
  a uid without a gate raises \<^verbatim>\<open>KeyError\<close>.
\<close>

fun gate_outputs :: "(nat \<rightharpoonup> 'g) \<Rightarrow> ('g \<Rightarrow> real) \<Rightarrow> nat list \<Rightarrow> error + real list" where
  "gate_outputs g app [] = Inr []"
| "gate_outputs g app (uid # rest) =
     (case g uid of
        None \<Rightarrow> Inl (KeyError uid)
      | Some w \<Rightarrow>
          (case gate_outputs g app rest of
             Inl e \<Rightarrow> Inl e
           | Inr outs \<Rightarrow> Inr (app w # outs)))"

text \<open>
  \<^verbatim>\<open>for i in range(len(metagraph.uids.tolist())):
      routing_weights[metagraph.uids[i]] = batchwise_routing_weights[i] + noisy_routing_weights[i]\<close>
\<close>

fun scatter_routing :: "real list \<Rightarrow> (nat \<times> real) list \<Rightarrow> error + real list" where
  "scatter_routing rw [] = Inr rw"
| "scatter_routing rw ((uid, v) # rest) =
     (case set_item rw uid v of
        Inl e \<Rightarrow> Inl e
      | Inr rw' \<Rightarrow> scatter_routing rw' rest)"

text \<open>
  Lines 283 to 312 of \<^verbatim>\<open>Nucleus.forward\<close>: the uids to query.
  \<^verbatim>\<open>torch.cat\<close> raises on an empty list of tensors.
\<close>

definition select_endpoints ::
  "'g nucleus \<Rightarrow> metagraph \<Rightarrow> ('g, 't) step_env \<Rightarrow> error + nat list" where
  "select_endpoints nuc mg env =
     (case gate_outputs (gates nuc) (gate_mean env) (mg_uids mg) of
        Inl e \<Rightarrow> Inl e
      | Inr batchwise \<Rightarrow>
          if batchwise = [] then Inl RuntimeError
          else
            (case scatter_routing (replicate (mg_n mg) 0)
                    (zip (mg_uids mg)
                       (map (\<lambda>i. batchwise ! i + noise env i) [0..<length (mg_uids mg)])) of
               Inl e \<Rightarrow> Inl e
             | Inr routing_weights \<Rightarrow>
                 (case torch_topk routing_weights
                         (min (length (mg_uids mg)) (nucleus_topk nuc)) of
                    Inl e \<Rightarrow> Inl e
                  | Inr (topk_weights, routing_uids) \<Rightarrow> Inr routing_uids)))"

text \<open>
  Modelled from the spec: \<^verbatim>\<open>joining_context\<close> and \<^verbatim>\<open>partial_contexts\<close> are imported
  from \<^verbatim>\<open>neuron_utilities\<close>, which is not among the sources. The spec: the joint
  aggregate \<open>J\<close> is computed from all successful results via a pluggable combination
  function; for each peer \<open>p\<close> of the queried subset the aggregate is recomputed with
  \<open>p\<close> excluded. \<open>partial_contexts\<close> is the dictionary from each queried uid to its
  aggregate, filled in the order of the uids.
\<close>

definition joining_context :: "('g, 't) step_env \<Rightarrow> (return_code \<times> 't) list \<Rightarrow> 't" where
  "joining_context env results =
     combine env (map snd (filter (\<lambda>(code, r). code = Success) results))"

definition successful_except :: "nat \<Rightarrow> (return_code \<times> 't) list \<Rightarrow> 't list" where
  "successful_except i results =
     map (\<lambda>(j, code, r). r)
       (filter (\<lambda>(j, code, r). j \<noteq> i \<and> code = Success) (enumerate 0 results))"

definition partial_contexts ::
  "('g, 't) step_env \<Rightarrow> nat list \<Rightarrow> (return_code \<times> 't) list \<Rightarrow> (nat \<times> 't) list" where
  "partial_contexts env routing_uids results =
     fold (\<lambda>i d. AList.update (routing_uids ! i) (combine env (successful_except i results)) d)
       [0..<length routing_uids] []"

text \<open>
  \<^verbatim>\<open>for uid in masked_contexts:
      masked_loss = get_target_loss ( masked_contexts[uid], inputs )
      shapely_score = unmasked_loss - masked_loss
      shapely_scores[ uid ] = shapely_score\<close>
\<close>

fun shapely_loop :: "('t \<Rightarrow> real) \<Rightarrow> real \<Rightarrow> (nat \<times> 't) list \<Rightarrow> real list \<Rightarrow> error + real list" where
  "shapely_loop loss unmasked_loss [] shapely_scores = Inr shapely_scores"
| "shapely_loop loss unmasked_loss ((uid, ctx) # rest) shapely_scores =
     (case set_item shapely_scores uid (unmasked_loss - loss ctx) of
        Inl e \<Rightarrow> Inl e
      | Inr shapely_scores' \<Rightarrow> shapely_loop loss unmasked_loss rest shapely_scores')"

text \<open>
  \<^verbatim>\<open>Nucleus.forward\<close>: the endpoints of the selected uids are queried, the responses
  joined and scored. The result is \<^verbatim>\<open>target_loss, -shapely_scores\<close>.
  \<^verbatim>\<open>metagraph.endpoints\<close> is taken to hold an endpoint for every uid, and the joining
  weights, all equal to one, are part of \<open>combine\<close>.
\<close>

definition forward ::
  "'g nucleus \<Rightarrow> metagraph \<Rightarrow> ('g, 't) step_env \<Rightarrow> error + real \<times> real list" where
  "forward nuc mg env =
     (case select_endpoints nuc mg env of
        Inl e \<Rightarrow> Inl e
      | Inr routing_uids \<Rightarrow>
          (case index_select (mg_uids mg) routing_uids of
             Inl e \<Rightarrow> Inl e
           | Inr endpoint_uids \<Rightarrow>
               (let results = forward_text env endpoint_uids;
                    responses_hidden = joining_context env results;
                    target_loss = train_loss env responses_hidden;
                    masked_contexts = partial_contexts env routing_uids results;
                    unmasked_loss = eval_loss env responses_hidden
                in case shapely_loop (eval_loss env) unmasked_loss masked_contexts
                          (replicate (mg_n mg) 0) of
                     Inl e \<Rightarrow> Inl e
                   | Inr shapely_scores \<Rightarrow> Inr (target_loss, map uminus shapely_scores))))"

subsection \<open>The neuron: one epoch\<close>

record config =
  n_topk_peer_weights :: nat
  blocks_per_epoch :: int
  epochs_until_reset :: nat

text \<open>
  The variables \<^verbatim>\<open>score_history\<close> and \<^verbatim>\<open>moving_avg_scores\<close> of
  \<^verbatim>\<open>run_epoch\<close>; the second is unbound until the first step has run.
\<close>

record epoch_state =
  score_history :: "real list list"
  moving_avg_scores :: "real list option"

text \<open>
  Lines 175 to 179:
  \<^verbatim>\<open>scores = scores / scores.sum()
  score_history.append( scores )
  moving_avg_scores = torch.stack( score_history ).mean(0)\<close>
\<close>

definition update_scores :: "epoch_state \<Rightarrow> real list \<Rightarrow> error + epoch_state" where
  "update_scores st scores =
     (case normalize_scores scores of
        Inl e \<Rightarrow> Inl e
      | Inr normalized \<Rightarrow>
          (case stack_mean (score_history st @ [normalized]) of
             Inl e \<Rightarrow> Inl e
           | Inr m \<Rightarrow>
               Inr \<lparr>score_history = score_history st @ [normalized],
                    moving_avg_scores = Some m\<rparr>))"

text \<open>The body of the loop: the forward pass, then the update of the scores.\<close>

definition run_step ::
  "'g nucleus \<Rightarrow> metagraph \<Rightarrow> ('g, 't) step_env \<Rightarrow> epoch_state \<Rightarrow> error + epoch_state" where
  "run_step nuc mg env st =
     (case forward nuc mg env of
        Inl e \<Rightarrow> Inl e
      | Inr (loss, scores) \<Rightarrow> update_scores st scores)"

text \<open>
  \<^verbatim>\<open>while self.subtensor.block < start_block + self.config.neuron.blocks_per_epoch\<close>.
  The chain's clock is the list of the values \<^verbatim>\<open>self.subtensor.block\<close> returns, one
  for every read; a read with no value left is a chain query that failed. Each turn
  reads the clock twice: in the loop test and in the log line. \<open>envs i\<close> is what step
  \<open>i\<close> takes from outside.
\<close>

fun stepping ::
  "'g nucleus \<Rightarrow> metagraph \<Rightarrow> int \<Rightarrow> int list \<Rightarrow> nat \<Rightarrow> (nat \<Rightarrow> ('g, 't) step_env)
    \<Rightarrow> epoch_state \<Rightarrow> error + epoch_state" where
  "stepping nuc mg end_block [] i envs st = Inl ChainError"
| "stepping nuc mg end_block [b] i envs st =
     (if b < end_block
      then (case run_step nuc mg (envs i) st of
              Inl e \<Rightarrow> Inl e
            | Inr st' \<Rightarrow> Inl ChainError)
      else Inr st)"
| "stepping nuc mg end_block (b # logged # bs) i envs st =
     (if b < end_block
      then (case run_step nuc mg (envs i) st of
              Inl e \<Rightarrow> Inl e
            | Inr st' \<Rightarrow> stepping nuc mg end_block bs (Suc i) envs st')
      else Inr st)"

text \<open>
  Modelled from the spec: \<^verbatim>\<open>bittensor.unbiased_topk\<close> is not among the sources. The
  spec calls it top-K selection by score; it is taken to return the \<open>k\<close> largest scores
  and their uids as \<^verbatim>\<open>torch.topk\<close> does.
\<close>

definition unbiased_topk :: "real list \<Rightarrow> nat \<Rightarrow> error + real list \<times> nat list" where
  "unbiased_topk vals k = torch_topk vals k"

text \<open>
  Lines 190 to 198: the weights handed to \<^verbatim>\<open>self.subtensor.set_weights\<close>, which is
  called with the uids, the weights and the wallet whenever the selection returns. The
  ledger is the list of the \<open>(uids, weights)\<close> that call was given, oldest first.
\<close>

definition committing ::
  "config \<Rightarrow> metagraph \<Rightarrow> epoch_state \<Rightarrow> (nat list \<times> real list) list
    \<Rightarrow> (error + epoch_state) \<times> (nat list \<times> real list) list" where
  "committing cfg mg st ledger =
     (case moving_avg_scores st of
        None \<Rightarrow> (Inl UnboundLocalError, ledger)
      | Some moving_avg \<Rightarrow>
          (case unbiased_topk moving_avg (min (n_topk_peer_weights cfg) (mg_n mg)) of
             Inl e \<Rightarrow> (Inl e, ledger)
           | Inr (topk_scores, topk_uids) \<Rightarrow> (Inr st, ledger @ [(topk_uids, topk_scores)])))"

text \<open>
  \<^verbatim>\<open>Neuron.run_epoch\<close>, for epoch number \<open>epoch\<close>. \<open>mg\<close> is the metagraph after
  \<^verbatim>\<open>self.metagraph.sync()\<close>; the first clock value is \<^verbatim>\<open>start_block\<close>.
\<close>

definition run_epoch ::
  "config \<Rightarrow> ('g \<Rightarrow> 'g) \<Rightarrow> 'g nucleus \<Rightarrow> nat \<Rightarrow> metagraph \<Rightarrow> int list
    \<Rightarrow> (nat \<Rightarrow> ('g, 't) step_env) \<Rightarrow> (nat list \<times> real list) list
    \<Rightarrow> (error + epoch_state) \<times> (nat list \<times> real list) list" where
  "run_epoch cfg xavier nuc epoch mg clock envs ledger =
     (if epochs_until_reset cfg = 0 then (Inl ZeroDivisionError, ledger)
      else
        (case (if epoch mod epochs_until_reset cfg = 0 then reset_weights xavier nuc
               else Inr nuc) of
           Inl e \<Rightarrow> (Inl e, ledger)
         | Inr nuc' \<Rightarrow>
             (case clock of
                [] \<Rightarrow> (Inl ChainError, ledger)
              | start_block # reads \<Rightarrow>
                  (case stepping nuc' mg (start_block + blocks_per_epoch cfg) reads 0 envs
                          \<lparr>score_history = [], moving_avg_scores = None\<rparr> of
                     Inl e \<Rightarrow> (Inl e, ledger)
                   | Inr st \<Rightarrow> committing cfg mg st ledger))))"


subsection \<open>A network of three uids\<close>

text \<open>
  Uid 0 is never queried; the gate of uid \<open>u\<close> answers \<open>u + 1\<close>, so that with
  \<^verbatim>\<open>nucleus.topk = 2\<close> the peers 2 and 1 are queried, in this order. Every
  endpoint answers, a hidden state is the list of the uids whose responses were joined,
  and the loss of a hidden state is read from a table: \<open>a\<close> for both peers joined,
  \<open>b\<close> with peer 1 left out, \<open>c\<close> with peer 2 left out.
\<close>

definition scenario_metagraph :: metagraph where
  "scenario_metagraph = \<lparr>mg_n = 3, mg_uids = [0, 1, 2]\<rparr>"

definition scenario_nucleus :: "nat nucleus" where
  "scenario_nucleus = Nucleus_init 2 Suc"

definition loss_table :: "real \<Rightarrow> real \<Rightarrow> real \<Rightarrow> nat list \<Rightarrow> real" where
  "loss_table a b c ctx =
     (if ctx = [2, 1] then a else if ctx = [2] then b else if ctx = [1] then c else 0)"

definition all_respond :: "nat list \<Rightarrow> (return_code \<times> nat list) list" where
  "all_respond uids = map (\<lambda>u. (Success, [u])) uids"

definition peer_env :: "real \<Rightarrow> real \<Rightarrow> real \<Rightarrow> (nat, nat list) step_env" where
  "peer_env a b c =
     \<lparr>gate_mean = real, noise = (\<lambda>i. 0), forward_text = all_respond, combine = concat,
      train_loss = loss_table a b c, eval_loss = loss_table a b c\<rparr>"

text \<open>The same peers and losses under other noise, other gate outputs and another training loss.\<close>

definition noisy_env :: "real \<Rightarrow> real \<Rightarrow> real \<Rightarrow> (nat, nat list) step_env" where
  "noisy_env a b c =
     \<lparr>gate_mean = (\<lambda>g. 2 * real g), noise = (\<lambda>i. real i / 10), forward_text = all_respond,
      combine = concat, train_loss = (\<lambda>ctx. 7), eval_loss = loss_table a b c\<rparr>"

definition every_step :: "'a \<Rightarrow> nat \<Rightarrow> 'a" where
  "every_step env i = env"

text \<open>A network with no peer, and one with a uid beyond the gates.\<close>

definition empty_metagraph :: metagraph where
  "empty_metagraph = \<lparr>mg_n = 0, mg_uids = []\<rparr>"

definition large_metagraph :: metagraph where
  "large_metagraph = \<lparr>mg_n = 2001, mg_uids = [0, 2000]\<rparr>"

definition epoch_config :: "nat \<Rightarrow> config" where
  "epoch_config k = \<lparr>n_topk_peer_weights = k, blocks_per_epoch = 5, epochs_until_reset = 2\<rparr>"

section \<open>Properties of the chain client\<close>








text \<open>
  C7. When at least one wait flag is true and the processed response is not a success,
  \<open>_do_set_weights\<close> returns \<open>(False, error_message)\<close> with the ledger's message, and
  the call has given the transport exactly one extrinsic: nothing is submitted again.
\<close>

theorem rejected_commit_not_retried:
  assumes "wait_for_inclusion \<or> wait_for_finalization"
    and "compose_call sub ''SubtensorModule'' ''set_weights''
             \<lparr>dests = uids, weights = vals, netuid = nuid, version_key = vkey\<rparr> = Inr call"
    and "create_signed_extrinsic sub call hotkey 100 = Inr x"
    and "submit_extrinsic sub sent x wait_for_inclusion wait_for_finalization = Inr response"
    and "\<not> is_success response"
  shows "do_set_weights sub hotkey uids vals nuid vkey wait_for_inclusion wait_for_finalization sent
           = (Inr (False, error_message response), sent @ [x])
       \<and> length (snd (do_set_weights sub hotkey uids vals nuid vkey
                        wait_for_inclusion wait_for_finalization sent))
           = length sent + 1"
  using assms by (auto simp add: do_set_weights_def)

theorem rejected_commit_not_retried_witness:
  "do_set_weights (rejecting_substrate ''InsufficientStake'') () [0, 1] [65535, 1] 3 0
       True False []
     = (Inr (False, Some ''InsufficientStake''),
        [\<lparr>dests = [0, 1], weights = [65535, 1], netuid = 3, version_key = 0\<rparr>])"
  using rejected_commit_not_retried
    [of True False "rejecting_substrate ''InsufficientStake''" "[0, 1]" "[65535, 1]" 3 0
        "\<lparr>dests = [0, 1], weights = [65535, 1], netuid = 3, version_key = 0\<rparr>" "()"
        "\<lparr>dests = [0, 1], weights = [65535, 1], netuid = 3, version_key = 0\<rparr>" "[]"
        "\<lparr>is_success = False, error_message = Some ''InsufficientStake''\<rparr>"]
  by (simp add: rejecting_substrate_def)


section \<open>Properties of the validator\<close>

subsection \<open>Auxiliary facts\<close>

lemma torch_topk_Inr:
  assumes "torch_topk v k = Inr (w, idx)"
  shows "k \<le> length v" and "length idx = k" and "distinct idx"
    and "set idx \<subseteq> {0..<length v}" and "w = map (\<lambda>i. v ! i) idx"
proof -
  let ?p = "sort_key (\<lambda>i. - (v ! i)) [0..<length v]"
  from assms have k: "k \<le> length v" and idx: "idx = take k ?p" and w: "w = map (\<lambda>i. v ! i) idx"
    by (auto simp: torch_topk_def Let_def split: if_splits)
  show "k \<le> length v" by (rule k)
  show "length idx = k" using k by (simp add: idx)
  show "distinct idx" by (simp add: idx)
  have "set idx \<subseteq> set ?p" unfolding idx by (rule set_take_subset)
  then show "set idx \<subseteq> {0..<length v}" by simp
  show "w = map (\<lambda>i. v ! i) idx" by (rule w)
qed





lemma gates_fold_upt:
  "fold (\<lambda>uid g. g(uid \<mapsto> new_gate uid)) [0..<m] Map.empty
     = (\<lambda>uid. if uid < m then Some (new_gate uid) else None)"
  by (induction m) (auto simp: fun_eq_iff)


lemma gates_Nucleus_init:
  "gates (Nucleus_init k new_gate) = (\<lambda>uid. if uid < 2000 then Some (new_gate uid) else None)"
  by (simp add: Nucleus_init_def gates_fold_upt)


lemma nucleus_topk_Nucleus_init: "nucleus_topk (Nucleus_init k new_gate) = k"
  by (simp add: Nucleus_init_def)


lemma dom_gates_Nucleus_init: "dom (gates (Nucleus_init k new_gate)) = {0..<2000}"
  by (auto simp: gates_Nucleus_init dom_def)


lemma gate_outputs_length:
  "gate_outputs g app us = Inr outs \<Longrightarrow> length outs = length us"
proof (induction us arbitrary: outs)
  case Nil
  then show ?case by simp
next
  case (Cons a us)
  from Cons.prems obtain w where w: "g a = Some w"
    by (cases "g a") simp_all
  with Cons.prems obtain outs' where o: "gate_outputs g app us = Inr outs'"
    by (cases "gate_outputs g app us") simp_all
  with Cons.prems w have "outs = app w # outs'" by simp
  with Cons.IH [OF o] show ?case by simp
qed

lemma gate_outputs_KeyError:
  "\<exists>u \<in> set us. g u = None \<Longrightarrow>
     \<exists>u \<in> set us. g u = None \<and> gate_outputs g app us = Inl (KeyError u)"
proof (induction us)
  case Nil
  then show ?case by simp
next
  case (Cons a us)
  show ?case
  proof (cases "g a")
    case None
    then have "g a = None \<and> gate_outputs g app (a # us) = Inl (KeyError a)" by simp
    then show ?thesis by (intro bexI [of _ a]) simp_all
  next
    case (Some w)
    with Cons.prems have "\<exists>u \<in> set us. g u = None" by auto
    from Cons.IH [OF this] obtain u where u: "u \<in> set us" "g u = None"
      "gate_outputs g app us = Inl (KeyError u)" by blast
    have "gate_outputs g app (a # us) = Inl (KeyError u)" using Some u(3) by simp
    with u show ?thesis by (intro bexI [of _ u]) simp_all
  qed
qed

lemma gate_outputs_total:
  "\<forall>u \<in> set us. g u \<noteq> None \<Longrightarrow> \<exists>outs. gate_outputs g app us = Inr outs"
  by (induction us) auto


lemma scatter_routing_length:
  "scatter_routing rw ps = Inr rw' \<Longrightarrow> length rw' = length rw"
proof (induction rw ps arbitrary: rw' rule: scatter_routing.induct)
  case (1 rw)
  then show ?case by simp
next
  case (2 rw uid v rest)
  show ?case
  proof (cases "uid < length rw")
    case True
    with "2.prems" have "scatter_routing (rw[uid := v]) rest = Inr rw'"
      by (simp add: set_item_def)
    with "2.IH" [of "rw[uid := v]" rw'] True show ?thesis by (simp add: set_item_def)
  next
    case False
    with "2.prems" show ?thesis by (simp add: set_item_def)
  qed
qed

lemma select_endpoints_cases:
  assumes "select_endpoints nuc mg env = Inr routing_uids"
  shows "\<exists>batchwise rw w.
    gate_outputs (gates nuc) (gate_mean env) (mg_uids mg) = Inr batchwise
    \<and> batchwise \<noteq> []
    \<and> scatter_routing (replicate (mg_n mg) 0)
           (zip (mg_uids mg)
              (map (\<lambda>i. batchwise ! i + noise env i) [0..<length (mg_uids mg)])) = Inr rw
    \<and> torch_topk rw (min (length (mg_uids mg)) (nucleus_topk nuc)) = Inr (w, routing_uids)"
proof (cases "gate_outputs (gates nuc) (gate_mean env) (mg_uids mg)")
  case (Inl e)
  with assms show ?thesis by (simp add: select_endpoints_def)
next
  case b: (Inr batchwise)
  show ?thesis
  proof (cases "batchwise = []")
    case True
    with assms b show ?thesis by (simp add: select_endpoints_def)
  next
    case ne: False
    show ?thesis
    proof (cases "scatter_routing (replicate (mg_n mg) 0)
           (zip (mg_uids mg)
              (map (\<lambda>i. batchwise ! i + noise env i) [0..<length (mg_uids mg)]))")
      case (Inl e)
      with assms b ne show ?thesis by (simp add: select_endpoints_def)
    next
      case rw: (Inr rw)
      show ?thesis
      proof (cases "torch_topk rw (min (length (mg_uids mg)) (nucleus_topk nuc))")
        case (Inl e)
        with assms b ne rw show ?thesis by (simp add: select_endpoints_def)
      next
        case (Inr r)
        obtain w idx where r: "r = (w, idx)" by (cases r)
        with assms b ne rw Inr have "idx = routing_uids" by (simp add: select_endpoints_def)
        with Inr r have "torch_topk rw (min (length (mg_uids mg)) (nucleus_topk nuc))
                           = Inr (w, routing_uids)" by simp
        with b ne rw show ?thesis by (intro exI conjI)
      qed
    qed
  qed
qed

lemma select_endpoints_Inr:
  assumes "select_endpoints nuc mg env = Inr routing_uids"
  shows "distinct routing_uids" and "set routing_uids \<subseteq> {0..<mg_n mg}"
    and "length routing_uids = min (length (mg_uids mg)) (nucleus_topk nuc)"
    and "mg_uids mg \<noteq> []"
proof -
  from assms obtain batchwise rw w where
    b: "gate_outputs (gates nuc) (gate_mean env) (mg_uids mg) = Inr batchwise" "batchwise \<noteq> []"
    and rw: "scatter_routing (replicate (mg_n mg) 0)
               (zip (mg_uids mg)
                  (map (\<lambda>i. batchwise ! i + noise env i) [0..<length (mg_uids mg)])) = Inr rw"
    and tk: "torch_topk rw (min (length (mg_uids mg)) (nucleus_topk nuc)) = Inr (w, routing_uids)"
    using select_endpoints_cases [OF assms] by (elim exE conjE)
  have len: "length rw = mg_n mg" using scatter_routing_length [OF rw] by simp
  show "distinct routing_uids" by (rule torch_topk_Inr(3) [OF tk])
  show "set routing_uids \<subseteq> {0..<mg_n mg}" using torch_topk_Inr(4) [OF tk] len by simp
  show "length routing_uids = min (length (mg_uids mg)) (nucleus_topk nuc)"
    by (rule torch_topk_Inr(2) [OF tk])
  show "mg_uids mg \<noteq> []" using gate_outputs_length [OF b(1)] b(2) by auto
qed

lemma select_endpoints_empty:
  "mg_uids mg = [] \<Longrightarrow> select_endpoints nuc mg env = Inl RuntimeError"
  by (simp add: select_endpoints_def)


lemma select_endpoints_KeyError:
  assumes "\<exists>u \<in> set (mg_uids mg). gates nuc u = None"
  shows "\<exists>u \<in> set (mg_uids mg). gates nuc u = None
           \<and> select_endpoints nuc mg env = Inl (KeyError u)"
proof -
  from gate_outputs_KeyError [OF assms, of "gate_mean env"] obtain u where
    "u \<in> set (mg_uids mg)" "gates nuc u = None"
    "gate_outputs (gates nuc) (gate_mean env) (mg_uids mg) = Inl (KeyError u)" by blast
  then show ?thesis by (auto simp: select_endpoints_def)
qed


lemma map_of_fold_update:
  assumes "distinct (map k js)" and "i \<in> set js"
  shows "map_of (fold (\<lambda>i d. AList.update (k i) (c i) d) js d0) (k i) = Some (c i)"
  using assms
proof (induction js rule: rev_induct)
  case Nil
  then show ?case by simp
next
  case (snoc j js)
  show ?case
  proof (cases "i = j")
    case True
    then show ?thesis by (simp add: update_conv')
  next
    case False
    with snoc.prems have "i \<in> set js" and "distinct (map k js)" and "k j \<notin> k ` set js"
      by simp_all
    then have "k i \<noteq> k j" by (metis imageI)
    with snoc.IH \<open>distinct (map k js)\<close> \<open>i \<in> set js\<close> show ?thesis
      by (simp add: update_conv')
  qed
qed

lemma distinct_fold_update:
  "distinct (map fst d0) \<Longrightarrow> distinct (map fst (fold (\<lambda>i d. AList.update (k i) (c i) d) js d0))"
  by (induction js arbitrary: d0) (simp_all add: distinct_update)

lemma fst_fold_update:
  "fst ` set (fold (\<lambda>i d. AList.update (k i) (c i) d) js d0) = fst ` set d0 \<union> k ` set js"
proof (induction js arbitrary: d0)
  case Nil
  then show ?case by simp
next
  case (Cons j js)
  have "fst ` set (fold (\<lambda>i d. AList.update (k i) (c i) d) (j # js) d0)
          = fst ` set (AList.update (k j) (c j) d0) \<union> k ` set js"
    using Cons.IH [of "AList.update (k j) (c j) d0"] by simp
  also have "\<dots> = ({k j} \<union> fst ` set d0) \<union> k ` set js"
    by (simp only: dom_update)
  also have "\<dots> = fst ` set d0 \<union> k ` set (j # js)"
    by auto
  finally show ?case .
qed

lemma set_nth_upt: "(\<lambda>i. xs ! i) ` {0..<length xs} = set xs"
  by (auto simp: set_conv_nth)

lemma partial_contexts_distinct: "distinct (map fst (partial_contexts env routing_uids results))"
  unfolding partial_contexts_def by (rule distinct_fold_update) simp

lemma partial_contexts_keys:
  "fst ` set (partial_contexts env routing_uids results) = set routing_uids"
  unfolding partial_contexts_def by (simp add: fst_fold_update set_nth_upt)

lemma partial_contexts_lookup:
  assumes "distinct routing_uids" and "i < length routing_uids"
  shows "(routing_uids ! i, combine env (successful_except i results))
           \<in> set (partial_contexts env routing_uids results)"
proof -
  have "distinct (map (\<lambda>i. routing_uids ! i) [0..<length routing_uids])"
    using assms(1) by (simp add: map_nth)
  moreover have "i \<in> set [0..<length routing_uids]" using assms(2) by simp
  ultimately have "map_of (partial_contexts env routing_uids results) (routing_uids ! i)
      = Some (combine env (successful_except i results))"
    unfolding partial_contexts_def by (rule map_of_fold_update)
  then show ?thesis by (rule map_of_SomeD)
qed

lemma shapely_loop_result:
  assumes "distinct (map fst d)" and "fst ` set d \<subseteq> {0..<length sc}"
  shows "\<exists>sc'. shapely_loop loss u d sc = Inr sc' \<and> length sc' = length sc
           \<and> (\<forall>p \<in> set d. sc' ! fst p = u - loss (snd p))
           \<and> (\<forall>j. j \<notin> fst ` set d \<longrightarrow> sc' ! j = sc ! j)"
  using assms
proof (induction d arbitrary: sc)
  case Nil
  then show ?case by simp
next
  case (Cons p d)
  obtain uid ctx where p: "p = (uid, ctx)" by (cases p)
  let ?sc = "sc[uid := u - loss ctx]"
  from Cons.prems p have uid: "uid < length sc" and fresh: "uid \<notin> fst ` set d"
    by auto
  from Cons.prems have d: "distinct (map fst d)" and "fst ` set d \<subseteq> {0..<length ?sc}"
    by auto
  from Cons.IH [OF this] obtain sc' where
    r: "shapely_loop loss u d ?sc = Inr sc'"
    and l: "length sc' = length sc"
    and a: "\<forall>q \<in> set d. sc' ! fst q = u - loss (snd q)"
    and b: "\<forall>j. j \<notin> fst ` set d \<longrightarrow> sc' ! j = ?sc ! j"
    by auto
  have run: "shapely_loop loss u (p # d) sc = Inr sc'"
    using r uid by (simp add: p set_item_def)
  have "sc' ! uid = ?sc ! uid" using b fresh by blast
  then have here: "sc' ! fst p = u - loss (snd p)" using uid by (simp add: p)
  have rest: "\<forall>j. j \<notin> fst ` set (p # d) \<longrightarrow> sc' ! j = sc ! j"
  proof (intro allI impI)
    fix j assume "j \<notin> fst ` set (p # d)"
    then have "j \<noteq> uid" and "j \<notin> fst ` set d" by (simp_all add: p)
    then show "sc' ! j = sc ! j" using b by simp
  qed
  show ?case using run l a here rest by simp
qed

lemma index_select_Inr:
  "index_select t idx = Inr r \<Longrightarrow> r = map (\<lambda>i. t ! i) idx"
  by (cases "list_all (\<lambda>i. i < length t) idx") (simp_all add: index_select_def)

lemma forward_cases:
  assumes "forward nuc mg env = Inr (loss, scores)"
  shows "\<exists>routing_uids sc.
    select_endpoints nuc mg env = Inr routing_uids
    \<and> index_select (mg_uids mg) routing_uids = Inr (map (\<lambda>u. mg_uids mg ! u) routing_uids)
    \<and> shapely_loop (eval_loss env)
          (eval_loss env (joining_context env
             (forward_text env (map (\<lambda>u. mg_uids mg ! u) routing_uids))))
          (partial_contexts env routing_uids
             (forward_text env (map (\<lambda>u. mg_uids mg ! u) routing_uids)))
          (replicate (mg_n mg) 0) = Inr sc
    \<and> scores = map uminus sc"
proof (cases "select_endpoints nuc mg env")
  case (Inl e)
  with assms show ?thesis by (simp add: forward_def)
next
  case sel: (Inr routing_uids)
  show ?thesis
  proof (cases "index_select (mg_uids mg) routing_uids")
    case (Inl e)
    with assms sel show ?thesis by (simp add: forward_def)
  next
    case (Inr endpoint_uids)
    then have e: "endpoint_uids = map (\<lambda>u. mg_uids mg ! u) routing_uids"
      by (rule index_select_Inr)
    let ?results = "forward_text env (map (\<lambda>u. mg_uids mg ! u) routing_uids)"
    let ?loop = "shapely_loop (eval_loss env) (eval_loss env (joining_context env ?results))
          (partial_contexts env routing_uids ?results) (replicate (mg_n mg) 0)"
    have idx: "index_select (mg_uids mg) routing_uids
                 = Inr (map (\<lambda>u. mg_uids mg ! u) routing_uids)"
      using Inr e by simp
    show ?thesis
    proof (cases ?loop)
      case (Inl e')
      with assms sel idx show ?thesis by (simp add: forward_def Let_def)
    next
      case loop: (Inr sc)
      with assms sel idx have "scores = map uminus sc" by (simp add: forward_def Let_def)
      with sel idx loop show ?thesis by (intro exI conjI)
    qed
  qed
qed

lemma forward_scores:
  assumes sel: "select_endpoints nuc mg env = Inr routing_uids"
    and fwd: "forward nuc mg env = Inr (loss, scores)"
  shows "length scores = mg_n mg"
    and "i < length routing_uids \<Longrightarrow>
          scores ! (routing_uids ! i)
            = eval_loss env (combine env (successful_except i
                (forward_text env (map (\<lambda>u. mg_uids mg ! u) routing_uids))))
              - eval_loss env (joining_context env
                  (forward_text env (map (\<lambda>u. mg_uids mg ! u) routing_uids)))"
    and "uid < mg_n mg \<Longrightarrow> uid \<notin> set routing_uids \<Longrightarrow> scores ! uid = 0"
proof -
  let ?results = "forward_text env (map (\<lambda>u. mg_uids mg ! u) routing_uids)"
  let ?unmasked = "eval_loss env (joining_context env ?results)"
  let ?d = "partial_contexts env routing_uids ?results"
  from forward_cases [OF fwd] sel obtain sc where
    loop: "shapely_loop (eval_loss env) ?unmasked ?d (replicate (mg_n mg) 0) = Inr sc"
    and scores: "scores = map uminus sc"
    by auto
  have dist: "distinct routing_uids" and sub: "set routing_uids \<subseteq> {0..<mg_n mg}"
    using select_endpoints_Inr [OF sel] by simp_all
  have keys: "fst ` set ?d = set routing_uids" by (rule partial_contexts_keys)
  have "distinct (map fst ?d)" by (rule partial_contexts_distinct)
  moreover have "fst ` set ?d \<subseteq> {0..<length (replicate (mg_n mg) (0::real))}"
    using keys sub by simp
  ultimately obtain sc' where
    r: "shapely_loop (eval_loss env) ?unmasked ?d (replicate (mg_n mg) 0) = Inr sc'"
    and l: "length sc' = length (replicate (mg_n mg) (0::real))"
    and a: "\<forall>p \<in> set ?d. sc' ! fst p = ?unmasked - eval_loss env (snd p)"
    and b: "\<forall>j. j \<notin> fst ` set ?d \<longrightarrow> sc' ! j = replicate (mg_n mg) (0::real) ! j"
    using shapely_loop_result [of ?d "replicate (mg_n mg) (0::real)" "eval_loss env" ?unmasked]
    by blast
  from r loop have sc: "sc' = sc" by simp
  show len: "length scores = mg_n mg" using l sc scores by simp
  {
    assume i: "i < length routing_uids"
    have mem: "(routing_uids ! i, combine env (successful_except i ?results)) \<in> set ?d"
      by (rule partial_contexts_lookup [OF dist i])
    have ri: "routing_uids ! i < mg_n mg" using sub i by (auto simp: subset_iff)
    from a mem have "sc ! (routing_uids ! i)
        = ?unmasked - eval_loss env (combine env (successful_except i ?results))"
      unfolding sc by fastforce
    moreover have "scores ! (routing_uids ! i) = - (sc ! (routing_uids ! i))"
      using ri l sc by (simp add: scores)
    ultimately show "scores ! (routing_uids ! i)
            = eval_loss env (combine env (successful_except i ?results)) - ?unmasked"
      by simp
  }
  {
    assume u: "uid < mg_n mg" and "uid \<notin> set routing_uids"
    then have "sc ! uid = replicate (mg_n mg) (0::real) ! uid" using b keys sc by simp
    then have "sc ! uid = 0" using u by simp
    then show "scores ! uid = 0" using u l sc by (simp add: scores)
  }
qed

lemma forward_total:
  assumes sel: "select_endpoints nuc mg env = Inr routing_uids"
    and idx: "list_all (\<lambda>u. u < length (mg_uids mg)) routing_uids"
  shows "\<exists>loss scores. forward nuc mg env = Inr (loss, scores)"
proof -
  let ?results = "forward_text env (map (\<lambda>u. mg_uids mg ! u) routing_uids)"
  let ?unmasked = "eval_loss env (joining_context env ?results)"
  let ?d = "partial_contexts env routing_uids ?results"
  have sub: "set routing_uids \<subseteq> {0..<mg_n mg}"
    using select_endpoints_Inr [OF sel] by simp
  have keys: "fst ` set ?d = set routing_uids" by (rule partial_contexts_keys)
  have "distinct (map fst ?d)" by (rule partial_contexts_distinct)
  moreover have "fst ` set ?d \<subseteq> {0..<length (replicate (mg_n mg) (0::real))}"
    using keys sub by simp
  ultimately obtain sc' where
    r: "shapely_loop (eval_loss env) ?unmasked ?d (replicate (mg_n mg) 0) = Inr sc'"
    using shapely_loop_result [of ?d "replicate (mg_n mg) (0::real)" "eval_loss env" ?unmasked]
    by blast
  have "index_select (mg_uids mg) routing_uids = Inr (map (\<lambda>u. mg_uids mg ! u) routing_uids)"
    using idx by (simp add: index_select_def)
  with sel r show ?thesis by (simp add: forward_def Let_def)
qed














lemma stepping_empty:
  "mg_uids mg = [] \<Longrightarrow> stepping nuc mg end_block clock i envs st = Inr st' \<Longrightarrow> st' = st"
proof (induction nuc mg end_block clock i envs st rule: stepping.induct)
  case (1 nuc mg end_block i envs st)
  then show ?case by simp
next
  case (2 nuc mg end_block b i envs st)
  then show ?case
    by (cases "b < end_block") (simp_all add: run_step_def forward_def select_endpoints_empty)
next
  case (3 nuc mg end_block b logged bs i envs st)
  then show ?case
    by (cases "b < end_block") (simp_all add: run_step_def forward_def select_endpoints_empty)
qed





lemma reset_gates_append:
  "reset_gates xavier (xs @ ys) g
     = (case reset_gates xavier xs g of Inl e \<Rightarrow> Inl e | Inr g' \<Rightarrow> reset_gates xavier ys g')"
proof (induction xs arbitrary: g)
  case Nil
  then show ?case by simp
next
  case (Cons x xs)
  show ?case
  proof (cases "g x")
    case None
    then show ?thesis by simp
  next
    case (Some a)
    then have "reset_gates xavier ((x # xs) @ ys) g
                 = reset_gates xavier (xs @ ys) (g(x \<mapsto> xavier a))"
      by simp
    also have "\<dots> = (case reset_gates xavier xs (g(x \<mapsto> xavier a)) of
                          Inl e \<Rightarrow> Inl e | Inr g' \<Rightarrow> reset_gates xavier ys g')"
      by (rule Cons.IH)
    also have "reset_gates xavier xs (g(x \<mapsto> xavier a)) = reset_gates xavier (x # xs) g"
      using Some by simp
    finally show ?thesis .
  qed
qed

lemma reset_gates_upt:
  "\<forall>u<m. g u \<noteq> None \<Longrightarrow>
     reset_gates xavier [0..<m] g
       = Inr (\<lambda>u. if u < m then map_option xavier (g u) else g u)"
proof (induction m)
  case 0
  then show ?case by simp
next
  case (Suc m)
  then have IH: "reset_gates xavier [0..<m] g
       = Inr (\<lambda>u. if u < m then map_option xavier (g u) else g u)" by simp
  from Suc.prems obtain w where w: "g m = Some w" by auto
  have "reset_gates xavier [0..<Suc m] g
          = reset_gates xavier [m] (\<lambda>u. if u < m then map_option xavier (g u) else g u)"
    by (simp add: reset_gates_append IH)
  also have "\<dots> = Inr ((\<lambda>u. if u < m then map_option xavier (g u) else g u)(m \<mapsto> xavier w))"
    by (simp add: w)
  also have "(\<lambda>u. if u < m then map_option xavier (g u) else g u)(m \<mapsto> xavier w)
               = (\<lambda>u. if u < Suc m then map_option xavier (g u) else g u)"
    by (auto simp: fun_eq_iff w less_Suc_eq)
  finally show ?case .
qed

lemma reset_weights_Nucleus_init:
  "reset_weights xavier (Nucleus_init k new_gate)
     = Inr (Nucleus_init k (\<lambda>uid. xavier (new_gate uid)))"
proof -
  have "reset_gates xavier [0..<2000] (gates (Nucleus_init k new_gate))
          = Inr (\<lambda>u. if u < 2000 then map_option xavier (gates (Nucleus_init k new_gate) u)
                      else gates (Nucleus_init k new_gate) u)"
    by (rule reset_gates_upt) (simp add: gates_Nucleus_init)
  also have "(\<lambda>u. if u < 2000 then map_option xavier (gates (Nucleus_init k new_gate) u)
                      else gates (Nucleus_init k new_gate) u)
               = gates (Nucleus_init k (\<lambda>uid. xavier (new_gate uid)))"
    by (simp add: gates_Nucleus_init fun_eq_iff)
  finally have "reset_weights xavier (Nucleus_init k new_gate)
     = Inr ((Nucleus_init k new_gate)
              \<lparr>gates := gates (Nucleus_init k (\<lambda>uid. xavier (new_gate uid)))\<rparr>)"
    by (simp add: reset_weights_def)
  also have "(Nucleus_init k new_gate)
              \<lparr>gates := gates (Nucleus_init k (\<lambda>uid. xavier (new_gate uid)))\<rparr>
               = Nucleus_init k (\<lambda>uid. xavier (new_gate uid))"
    by (simp add: Nucleus_init_def)
  finally show ?thesis .
qed


lemma run_epoch_empty:
  assumes "mg_uids mg = []"
  shows "\<exists>e. run_epoch cfg xavier nuc epoch mg clock envs ledger = (Inl e, ledger)"
proof (cases "epochs_until_reset cfg = 0")
  case True
  then show ?thesis by (simp add: run_epoch_def)
next
  case nz: False
  let ?reset = "if epoch mod epochs_until_reset cfg = 0 then reset_weights xavier nuc else Inr nuc"
  show ?thesis
  proof (cases ?reset)
    case (Inl e)
    with nz show ?thesis by (simp add: run_epoch_def)
  next
    case nuc': (Inr nuc')
    show ?thesis
    proof (cases clock)
      case Nil
      with nz nuc' show ?thesis by (simp add: run_epoch_def)
    next
      case (Cons start_block reads)
      let ?st0 = "\<lparr>score_history = [], moving_avg_scores = None\<rparr>"
      let ?loop = "stepping nuc' mg (start_block + blocks_per_epoch cfg) reads 0 envs ?st0"
      show ?thesis
      proof (cases ?loop)
        case (Inl e)
        with nz nuc' Cons show ?thesis by (simp add: run_epoch_def)
      next
        case (Inr st1)
        with assms have "st1 = ?st0" by (rule stepping_empty)
        with nz nuc' Cons Inr show ?thesis by (simp add: run_epoch_def committing_def)
      qed
    qed
  qed
qed

subsection \<open>The network of three uids, evaluated\<close>

lemmas run_simps = gates_Nucleus_init nucleus_topk_Nucleus_init Let_def set_item_def
  torch_topk_def index_select_def partial_contexts_def successful_except_def
  joining_context_def enumerate_eq_zip upt_conv_Cons eval_nat_numeral
  scenario_metagraph_def scenario_nucleus_def all_respond_def

lemma scenario_select:
  "select_endpoints scenario_nucleus scenario_metagraph (peer_env a b c) = Inr [2, 1]"
  by (simp add: select_endpoints_def peer_env_def run_simps)

lemma noisy_select:
  "select_endpoints scenario_nucleus scenario_metagraph (noisy_env a b c) = Inr [2, 1]"
  by (simp add: select_endpoints_def noisy_env_def run_simps)

lemma scenario_forward:
  "forward scenario_nucleus scenario_metagraph (peer_env a b c) = Inr (a, [0, b - a, c - a])"
  unfolding forward_def scenario_select
  by (simp add: peer_env_def loss_table_def run_simps)

lemma noisy_forward:
  "forward scenario_nucleus scenario_metagraph (noisy_env a b c) = Inr (7, [0, b - a, c - a])"
  unfolding forward_def noisy_select
  by (simp add: noisy_env_def loss_table_def run_simps)











subsection \<open>The forward pass and the scores\<close>

text \<open>
  C2. For every queried peer (position \<open>i\<close> of the selected uids), the score the forward
  pass returns at that peer's uid is the loss of the aggregate joined without that peer
  minus the loss of the joint aggregate: \<open>U(J\<^sub>-\<^sub>p) - U(J)\<close>, where \<open>U\<close> is what
  \<^verbatim>\<open>get_target_loss\<close> returns in evaluation mode. With two peers and
  \<open>U(J) = 0.5\<close>, \<open>U(J\<^sub>-\<^sub>1) = 0.6\<close>, \<open>U(J\<^sub>-\<^sub>2) = 0.4\<close> the scores are \<open>0.1\<close> and \<open>-0.1\<close>.
\<close>

theorem shapely_score_is_loss_difference:
  assumes "select_endpoints nuc mg env = Inr routing_uids"
    and "forward nuc mg env = Inr (loss, scores)"
    and "i < length routing_uids"
  shows "scores ! (routing_uids ! i)
           = eval_loss env (combine env (successful_except i
               (forward_text env (map (\<lambda>u. mg_uids mg ! u) routing_uids))))
             - eval_loss env (joining_context env
                 (forward_text env (map (\<lambda>u. mg_uids mg ! u) routing_uids)))"
  using assms by (rule forward_scores(2))

theorem shapely_score_is_loss_difference_witness:
  "select_endpoints scenario_nucleus scenario_metagraph (peer_env (1/2) (3/5) (2/5)) = Inr [2, 1]
   \<and> forward scenario_nucleus scenario_metagraph (peer_env (1/2) (3/5) (2/5))
       = Inr (1/2, [0, 1/10, - 1/10])
   \<and> eval_loss (peer_env (1/2) (3/5) (2/5))
        (joining_context (peer_env (1/2) (3/5) (2/5))
           (forward_text (peer_env (1/2) (3/5) (2/5)) [2, 1])) = 1/2
   \<and> eval_loss (peer_env (1/2) (3/5) (2/5))
        (combine (peer_env (1/2) (3/5) (2/5))
           (successful_except 1 (forward_text (peer_env (1/2) (3/5) (2/5)) [2, 1]))) = 3/5
   \<and> [0, 1/10, - 1/10] ! ([2, 1] ! 1) = (3/5 - 1/2 :: real)"
proof -
  let ?env = "peer_env (1/2) (3/5) (2/5)"
  have uids: "map (\<lambda>u. mg_uids scenario_metagraph ! u) [2, 1] = [2, 1]"
    by (simp add: scenario_metagraph_def)
  have joint: "eval_loss ?env (joining_context ?env (forward_text ?env [2, 1])) = 1/2"
    by (simp add: peer_env_def loss_table_def all_respond_def joining_context_def)
  have without: "eval_loss ?env (combine ?env (successful_except 1 (forward_text ?env [2, 1])))
                   = 3/5"
    by (simp add: peer_env_def loss_table_def all_respond_def successful_except_def
        enumerate_eq_zip upt_conv_Cons eval_nat_numeral)
  have fwd: "forward scenario_nucleus scenario_metagraph ?env = Inr (1/2, [0, 1/10, - 1/10])"
    by (simp add: scenario_forward)
  have "[0, 1/10, - 1/10] ! ([2, 1] ! 1) = (3/5 - 1/2 :: real)"
    using shapely_score_is_loss_difference [OF scenario_select fwd, of 1]
    by (simp add: uids joint without)
  with scenario_select fwd joint without show ?thesis by simp
qed





subsection \<open>The commit\<close>







text \<open>
  C9, as stated, fails: on a metagraph without uids the selection does not return an
  empty subset. \<^verbatim>\<open>torch.cat\<close> is given an empty list of gate outputs and raises, and
  the epoch ends with that error.
\<close>

theorem empty_network_raises:
  "select_endpoints scenario_nucleus empty_metagraph (peer_env 0 0 0) = Inl RuntimeError
   \<and> run_epoch (epoch_config 3) Suc scenario_nucleus 1 empty_metagraph
       [100, 100, 101, 105] (every_step (peer_env 0 0 0)) []
     = (Inl RuntimeError, [])"
  by (simp add: run_epoch_def epoch_config_def run_step_def forward_def
      select_endpoints_empty empty_metagraph_def)

text \<open>
  C9 (amended). When the metagraph has no uid, the forward pass raises before any peer
  is selected, the epoch ends with an error, and the ledger is as it was: nothing is
  handed to \<^verbatim>\<open>set_weights\<close>.
\<close>

theorem empty_network_sends_no_commit:
  assumes "mg_uids mg = []"
  shows "select_endpoints nuc mg env = Inl RuntimeError
    \<and> forward nuc mg env = Inl RuntimeError
    \<and> (\<exists>e. run_epoch cfg xavier nuc epoch mg clock envs ledger = (Inl e, ledger))"
  using assms run_epoch_empty [OF assms]
  by (simp add: forward_def select_endpoints_empty)

theorem empty_network_sends_no_commit_witness:
  "mg_uids empty_metagraph = []
   \<and> forward scenario_nucleus empty_metagraph (peer_env 0 0 0) = Inl RuntimeError
   \<and> snd (run_epoch (epoch_config 3) Suc scenario_nucleus 1 empty_metagraph
            [100, 100, 101, 105] (every_step (peer_env 0 0 0)) [([1], [1])])
       = [([1], [1])]"
proof -
  have e: "mg_uids empty_metagraph = []" by (simp add: empty_metagraph_def)
  from empty_network_sends_no_commit [OF e] e show ?thesis by (metis snd_conv)
qed

text \<open>
  C10, as stated, fails for the reset of the weights: \<^verbatim>\<open>reset_weights\<close> goes through
  \<^verbatim>\<open>range(2000)\<close>, not through the uids of the network, and returns normally also
  when the network has the uid 2000.
\<close>

theorem reset_weights_does_not_fail:
  "2000 \<in> set (mg_uids large_metagraph) \<and> \<not> isl (reset_weights Suc scenario_nucleus)"
  by (simp add: large_metagraph_def scenario_nucleus_def reset_weights_Nucleus_init)

text \<open>
  C10 (amended). The gates are made for the uids 0 to 1999 at construction. On a
  network with a uid of 2000 or more the forward pass fails with \<^verbatim>\<open>KeyError\<close> at
  such a uid; no gate is made for it. The reset of the weights goes through the uids 0
  to 1999 only: it returns normally and leaves the gates with the same uids.
\<close>

theorem gate_table_is_fixed:
  "dom (gates (Nucleus_init k new_gate)) = {0..<2000}
   \<and> ((\<exists>u \<in> set (mg_uids mg). 2000 \<le> u) \<longrightarrow>
        (\<exists>u \<in> set (mg_uids mg). 2000 \<le> u
           \<and> forward (Nucleus_init k new_gate) mg env = Inl (KeyError u)))
   \<and> (\<exists>nuc'. reset_weights xavier (Nucleus_init k new_gate) = Inr nuc'
         \<and> dom (gates nuc') = {0..<2000})"
proof -
  have fails: "(\<exists>u \<in> set (mg_uids mg). 2000 \<le> u) \<longrightarrow>
        (\<exists>u \<in> set (mg_uids mg). 2000 \<le> u
           \<and> forward (Nucleus_init k new_gate) mg env = Inl (KeyError u))"
  proof
    assume "\<exists>u \<in> set (mg_uids mg). 2000 \<le> u"
    then obtain v where v: "v \<in> set (mg_uids mg)" "2000 \<le> v" by blast
    then have "gates (Nucleus_init k new_gate) v = None" by (simp add: gates_Nucleus_init)
    with v(1) have "\<exists>u \<in> set (mg_uids mg). gates (Nucleus_init k new_gate) u = None"
      by blast
    from select_endpoints_KeyError [OF this, of env] obtain u where
      u: "u \<in> set (mg_uids mg)" "gates (Nucleus_init k new_gate) u = None"
      and s: "select_endpoints (Nucleus_init k new_gate) mg env = Inl (KeyError u)"
      by blast
    from u(2) have "2000 \<le> u" by (simp add: gates_Nucleus_init split: if_splits)
    moreover from s have "forward (Nucleus_init k new_gate) mg env = Inl (KeyError u)"
      by (simp add: forward_def)
    ultimately show "\<exists>u \<in> set (mg_uids mg). 2000 \<le> u
           \<and> forward (Nucleus_init k new_gate) mg env = Inl (KeyError u)"
      using u(1) by blast
  qed
  have "reset_weights xavier (Nucleus_init k new_gate)
          = Inr (Nucleus_init k (\<lambda>uid. xavier (new_gate uid)))"
    by (rule reset_weights_Nucleus_init)
  then have "\<exists>nuc'. reset_weights xavier (Nucleus_init k new_gate) = Inr nuc'
         \<and> dom (gates nuc') = {0..<2000}"
    by (simp add: dom_gates_Nucleus_init)
  with fails show ?thesis by (simp add: dom_gates_Nucleus_init)
qed

theorem gate_table_is_fixed_witness:
  "forward scenario_nucleus large_metagraph (peer_env 0 0 0) = Inl (KeyError 2000)"
  using gate_table_is_fixed [of 2 Suc large_metagraph "peer_env 0 0 0" Suc]
  by (simp add: large_metagraph_def scenario_nucleus_def)

end
